theory Spec2Isabelle
  imports Complex_Main "HOL-Library.AList" "HOL-Library.Log_Nat"
begin

section \<open>Catalogs\<close>

text \<open>
  The two hard-coded tables of \<^verbatim>\<open>simple_scheduler.py\<close>: the ordered time slots
  (Wednesday has two slots only) and the classrooms of the department, in the order of
  the source.
\<close>

definition TIME_SLOTS :: "(string \<times> string) list" where
  "TIME_SLOTS =
    [(''Monday'', ''8 AM - 10 AM''), (''Monday'', ''10 AM - 12 PM''),
     (''Monday'', ''12 PM - 2 PM''), (''Monday'', ''2 PM - 4 PM''),
     (''Tuesday'', ''8 AM - 10 AM''), (''Tuesday'', ''10 AM - 12 PM''),
     (''Tuesday'', ''12 PM - 2 PM''), (''Tuesday'', ''2 PM - 4 PM''),
     (''Wednesday'', ''8 AM - 10 AM''), (''Wednesday'', ''10 AM - 12 PM''),
     (''Thursday'', ''8 AM - 10 AM''), (''Thursday'', ''10 AM - 12 PM''),
     (''Thursday'', ''12 PM - 2 PM''), (''Thursday'', ''2 PM - 4 PM''),
     (''Friday'', ''8 AM - 10 AM''), (''Friday'', ''10 AM - 12 PM''),
     (''Friday'', ''12 PM - 2 PM''), (''Friday'', ''2 PM - 4 PM'')]"

record classroom =
  name :: string
  capacity :: int

definition CLASSROOMS :: "classroom list" where
  "CLASSROOMS =
    [\<lparr>name = ''Software Lab'', capacity = 90\<rparr>,
     \<lparr>name = ''Hardware Lab'', capacity = 80\<rparr>,
     \<lparr>name = ''CS Lecture Hall 1'', capacity = 200\<rparr>,
     \<lparr>name = ''CS Lecture Hall 2'', capacity = 150\<rparr>,
     \<lparr>name = ''Tutorial Room A'', capacity = 50\<rparr>,
     \<lparr>name = ''Tutorial Room B'', capacity = 50\<rparr>,
     \<lparr>name = ''Seminar Room'', capacity = 100\<rparr>]"

section \<open>Input and output data\<close>

text \<open>
  The JSON objects of \<^verbatim>\<open>user_input.json\<close> with the keys the scheduler reads. Python
  integers are unbounded, hence \<^typ>\<open>int\<close>.
\<close>

record course =
  course_code :: string
  title :: string
  level :: int
  lecturer :: string
  hours_per_week :: int
  enrollment :: int

text \<open>An element \<^verbatim>\<open>lec\<close> of \<^verbatim>\<open>lecturers_data\<close>: \<^verbatim>\<open>lec['name']\<close>, \<^verbatim>\<open>lec['hours_per_week']\<close>.\<close>

record lecturer_input =
  lec_name :: string
  lec_hours_per_week :: int

text \<open>A value of the \<^verbatim>\<open>lecturers\<close> dictionary.\<close>

record ledger_entry =
  hours_available :: int
  hours_used :: int

text \<open>An element of \<^verbatim>\<open>schedule\<close>; the field \<open>s_k\<close> is the key \<^verbatim>\<open>k\<close> of the dictionary.\<close>

record session =
  s_course :: string
  s_title :: string
  s_level :: int
  s_lecturer :: string
  s_room :: string
  s_day :: string
  s_time :: string
  s_capacity :: int
  s_enrollment :: int

text \<open>
  An element of \<^verbatim>\<open>unscheduled\<close>: the keys of the course (\<^verbatim>\<open>**course\<close>), the key
  \<^verbatim>\<open>reason\<close>, and the keys \<^verbatim>\<open>sessions_assigned\<close> and \<^verbatim>\<open>sessions_needed\<close> where the
  source writes them; \<open>None\<close> is an absent key.
\<close>

record unscheduled_record =
  u_course :: course
  sessions_assigned :: "int option"
  sessions_needed :: "int option"
  reason :: string

section \<open>Python arithmetic\<close>

datatype error = OverflowError | KeyError

text \<open>\<^verbatim>\<open>(hours_per_week + 1) // 2\<close>: floor division, which \<open>div\<close> on \<^typ>\<open>int\<close> is.\<close>

definition calculate_sessions_needed :: "int \<Rightarrow> int" where
  "calculate_sessions_needed hpw = (hpw + 1) div 2"

subsection \<open>Binary floating point\<close>

text \<open>
  A finite double is modelled by the rational number it denotes. \<open>ilog2 x\<close> is the binary
  exponent of a positive rational \<open>x\<close>, \<open>round_half_even\<close> rounds to the nearest integer with
  ties to the even one, and \<open>fl x\<close> is the number with a 53 bit significand nearest to \<open>x\<close>
  (exponent range unbounded: no value of the scheduler is subnormal, and the only way to
  leave the range is the conversion of a huge integer, where Python raises
  \<^verbatim>\<open>OverflowError\<close>: the rounded value has a binary exponent above 1023).
\<close>

definition ilog2 :: "rat \<Rightarrow> int" where
  "ilog2 x =
     (case quotient_of x of (p, q) \<Rightarrow>
        let d = bitlen p - bitlen q in if 2 powi d \<le> x then d else d - 1)"

definition round_half_even :: "rat \<Rightarrow> int" where
  "round_half_even x =
     (let f = \<lfloor>x\<rfloor>; d = x - of_int f
      in if d < 1 / 2 then f else if 1 / 2 < d then f + 1
         else if even f then f else f + 1)"

definition fl :: "rat \<Rightarrow> rat" where
  "fl x =
     (if x = 0 then 0
      else let u = 2 powi (ilog2 \<bar>x\<bar> - 52) in of_int (round_half_even (x / u)) * u)"

text \<open>The conversion of a Python integer to a float, as done for \<^verbatim>\<open>int * float\<close>.\<close>

definition float_of_int :: "int \<Rightarrow> error + rat" where
  "float_of_int i =
     (let x = fl (of_int i)
      in if x \<noteq> 0 \<and> 1023 < ilog2 \<bar>x\<bar> then Inl OverflowError else Inr x)"

text \<open>\<^verbatim>\<open>course['enrollment'] * 0.8\<close>; the literal denotes the double nearest to 4/5.\<close>

definition enrollment_times_08 :: "int \<Rightarrow> error + rat" where
  "enrollment_times_08 e =
     (case float_of_int e of Inl err \<Rightarrow> Inl err | Inr x \<Rightarrow> Inr (fl (x * fl (4 / 5))))"

text \<open>
  \<^verbatim>\<open>round(x, 1)\<close> on a float: the decimal with one fractional digit nearest to the exact
  value of \<open>x\<close> (ties to even), read back as a double.
\<close>

definition py_round1 :: "rat \<Rightarrow> rat" where
  "py_round1 x = fl (of_int (round_half_even (x * 10)) / 10)"

subsection \<open>Formatting integers\<close>

fun str_nat :: "nat \<Rightarrow> string" where
  "str_nat n =
     (if n < 10 then [''0123456789'' ! n]
      else str_nat (n div 10) @ [''0123456789'' ! (n mod 10)])"

declare str_nat.simps [simp del]

definition str_int :: "int \<Rightarrow> string" where
  "str_int i = (if i < 0 then ''-'' @ str_nat (nat (- i)) else str_nat (nat i))"

section \<open>The scheduler\<close>

subsection \<open>State of one run\<close>

text \<open>
  The local variables of \<^verbatim>\<open>schedule_courses\<close> that the loops update. The dictionary
  \<^verbatim>\<open>lecturers\<close> is an association list in insertion order; the three usage dictionaries
  only ever map a key to \<^verbatim>\<open>True\<close> and are read with \<^verbatim>\<open>in\<close>, so they are sets of keys.
\<close>

record state =
  lecturers :: "(string \<times> ledger_entry) list"
  room_usage :: "(string \<times> string \<times> string) set"
  lecturer_usage :: "(string \<times> string \<times> string) set"
  level_usage :: "(int \<times> string \<times> string) set"
  schedule :: "session list"
  unscheduled :: "unscheduled_record list"

text \<open>
  The lookup table: a later entry of \<^verbatim>\<open>lecturers_data\<close> with the same name replaces the
  value of the earlier one.
\<close>

fun build_lecturers ::
  "(string \<times> ledger_entry) list \<Rightarrow> lecturer_input list \<Rightarrow> (string \<times> ledger_entry) list" where
  "build_lecturers lecs [] = lecs"
| "build_lecturers lecs (lec # lecturers_data) =
     build_lecturers
       (AList.update (lec_name lec)
          \<lparr>hours_available = lec_hours_per_week lec, hours_used = 0\<rparr> lecs)
       lecturers_data"

definition init_state :: "lecturer_input list \<Rightarrow> state" where
  "init_state lecturers_data =
     \<lparr>lecturers = build_lecturers [] lecturers_data,
      room_usage = {}, lecturer_usage = {}, level_usage = {},
      schedule = [], unscheduled = []\<rparr>"

subsection \<open>The loops\<close>

text \<open>The body of the innermost loop once a room is accepted (lines 150 to 166).\<close>

definition assign :: "course \<Rightarrow> string \<Rightarrow> string \<Rightarrow> classroom \<Rightarrow> ledger_entry \<Rightarrow> state \<Rightarrow> state" where
  "assign c day time room lec st =
     st\<lparr>schedule := schedule st @
           [\<lparr>s_course = course_code c, s_title = title c, s_level = level c,
             s_lecturer = lecturer c, s_room = name room, s_day = day, s_time = time,
             s_capacity = capacity room, s_enrollment = enrollment c\<rparr>],
        room_usage := insert (name room, day, time) (room_usage st),
        lecturer_usage := insert (lecturer c, day, time) (lecturer_usage st),
        level_usage := insert (level c, day, time) (level_usage st),
        lecturers := AList.update (lecturer c) (lec\<lparr>hours_used := hours_used lec + 2\<rparr>)
                       (lecturers st)\<rparr>"

text \<open>
  \<^verbatim>\<open>for room in sorted(CLASSROOMS, ...)\<close> at one slot, over the rooms still to visit. The
  result is the state, \<^verbatim>\<open>sessions_assigned\<close> and \<^verbatim>\<open>room_found\<close>. The product
  \<^verbatim>\<open>course['enrollment'] * 0.8\<close> is evaluated for each room visited and may raise.
\<close>

fun room_loop ::
  "course \<Rightarrow> string \<Rightarrow> string \<Rightarrow> classroom list \<Rightarrow> state \<Rightarrow> int \<Rightarrow> error + (state \<times> int \<times> bool)" where
  "room_loop c day time [] st assigned = Inr (st, assigned, False)"
| "room_loop c day time (room # rooms) st assigned =
     (case enrollment_times_08 (enrollment c) of
        Inl err \<Rightarrow> Inl err
      | Inr x \<Rightarrow>
          if of_int (capacity room) < x then room_loop c day time rooms st assigned
          else if (name room, day, time) \<in> room_usage st
            then room_loop c day time rooms st assigned
          else
            (case map_of (lecturers st) (lecturer c) of
               None \<Rightarrow> Inl KeyError
             | Some lec \<Rightarrow> Inr (assign c day time room lec st, assigned + 1, True)))"

text \<open>
  \<^verbatim>\<open>for day, time in TIME_SLOTS\<close> for one course, over the slots still to visit; the
  result is the state and \<^verbatim>\<open>sessions_assigned\<close> when the loop is left.
\<close>

fun slot_loop ::
  "course \<Rightarrow> int \<Rightarrow> (string \<times> string) list \<Rightarrow> state \<Rightarrow> int \<Rightarrow> error + (state \<times> int)" where
  "slot_loop c needed [] st assigned = Inr (st, assigned)"
| "slot_loop c needed ((day, time) # slots) st assigned =
     (if needed \<le> assigned then Inr (st, assigned)
      else
        (case map_of (lecturers st) (lecturer c) of
           None \<Rightarrow> Inl KeyError
         | Some lec \<Rightarrow>
             if hours_available lec \<le> hours_used lec then slot_loop c needed slots st assigned
             else if (lecturer c, day, time) \<in> lecturer_usage st
               then slot_loop c needed slots st assigned
             else if (level c, day, time) \<in> level_usage st
               then slot_loop c needed slots st assigned
             else
               (case room_loop c day time (sort_key capacity CLASSROOMS) st assigned of
                  Inl err \<Rightarrow> Inl err
                | Inr (st', assigned', room_found) \<Rightarrow> slot_loop c needed slots st' assigned')))"

text \<open>The two dictionaries appended to \<^verbatim>\<open>unscheduled\<close> (lines 115 to 118 and 177 to 182).\<close>

definition lecturer_not_found :: "course \<Rightarrow> unscheduled_record" where
  "lecturer_not_found c =
     \<lparr>u_course = c, sessions_assigned = None, sessions_needed = None,
      reason = ''Lecturer '' @ lecturer c @ '' not found in system''\<rparr>"

definition shortfall :: "course \<Rightarrow> int \<Rightarrow> int \<Rightarrow> unscheduled_record" where
  "shortfall c assigned needed =
     \<lparr>u_course = c, sessions_assigned = Some assigned, sessions_needed = Some needed,
      reason = ''Could only schedule '' @ str_int assigned @ ''/'' @ str_int needed @
               '' sessions''\<rparr>"

text \<open>
  The body of \<^verbatim>\<open>for course in courses\<close>. The flag \<^verbatim>\<open>assigned\<close> of the source is
  written and never read.
\<close>

definition process_course :: "state \<Rightarrow> course \<Rightarrow> error + state" where
  "process_course st c =
     (let needed = calculate_sessions_needed (hours_per_week c) in
      if map_of (lecturers st) (lecturer c) = None then
        Inr (st\<lparr>unscheduled := unscheduled st @ [lecturer_not_found c]\<rparr>)
      else
        (case slot_loop c needed TIME_SLOTS st 0 of
           Inl err \<Rightarrow> Inl err
         | Inr (st', assigned) \<Rightarrow>
             Inr (if assigned < needed then
                    st'\<lparr>unscheduled := unscheduled st' @ [shortfall c assigned needed]\<rparr>
                  else st')))"

fun course_loop :: "state \<Rightarrow> course list \<Rightarrow> error + state" where
  "course_loop st [] = Inr st"
| "course_loop st (c # courses) =
     (case process_course st c of Inl err \<Rightarrow> Inl err | Inr st' \<Rightarrow> course_loop st' courses)"

subsection \<open>The result\<close>

text \<open>
  The dictionary \<^verbatim>\<open>stats\<close>; \<open>n_unscheduled\<close> is its key \<^verbatim>\<open>unscheduled\<close>, and
  \<open>success_rate\<close> the float it holds.
\<close>

record stats =
  total_courses :: int
  fully_scheduled :: int
  partially_scheduled :: int
  n_unscheduled :: int
  success_rate :: rat
  total_sessions :: int

text \<open>
  The dictionary returned. Both \<^verbatim>\<open>return\<close> statements write the keys \<^verbatim>\<open>schedule\<close> and
  \<^verbatim>\<open>unscheduled\<close>; each of the other keys is written by one of them only, and \<open>None\<close>
  is an absent key.
\<close>

record result =
  r_schedule :: "session list"
  r_unscheduled :: "unscheduled_record list"
  r_message :: "string option"
  r_statistics :: "stats option"
  r_lecturer_workload :: "(string \<times> int) list option"

text \<open>\<^verbatim>\<open>u.get('sessions_assigned', 0)\<close>\<close>

definition get_sessions_assigned :: "unscheduled_record \<Rightarrow> int" where
  "get_sessions_assigned u = (case sessions_assigned u of None \<Rightarrow> 0 | Some a \<Rightarrow> a)"

definition scheduled_courses :: "course list \<Rightarrow> session list \<Rightarrow> int" where
  "scheduled_courses courses sched =
     int (length (filter (\<lambda>c. course_code c \<in> set (map s_course sched)) courses))"

definition make_stats :: "course list \<Rightarrow> state \<Rightarrow> stats" where
  "make_stats courses st =
     (let total = int (length courses);
          sc = scheduled_courses courses (schedule st)
      in \<lparr>total_courses = total,
          fully_scheduled = sc - int (length (unscheduled st)),
          partially_scheduled =
            int (length (filter (\<lambda>u. 0 < get_sessions_assigned u) (unscheduled st))),
          n_unscheduled =
            int (length (filter (\<lambda>u. get_sessions_assigned u = 0) (unscheduled st))),
          success_rate =
            py_round1 (if 0 < total then fl (fl (of_int sc / of_int total) * 100) else 0),
          total_sessions = int (length (schedule st))\<rparr>)"

text \<open>
  \<^verbatim>\<open>schedule_courses\<close>, as a function of the two lists that \<^verbatim>\<open>load_user_data\<close> read
  from the input file.
\<close>

definition schedule_courses :: "course list \<Rightarrow> lecturer_input list \<Rightarrow> error + result" where
  "schedule_courses courses lecturers_data =
     (if courses = [] then
        Inr \<lparr>r_schedule = [], r_unscheduled = [],
             r_message = Some ''No courses to schedule. Please add courses first.'',
             r_statistics = None, r_lecturer_workload = None\<rparr>
      else
        (case course_loop (init_state lecturers_data) courses of
           Inl err \<Rightarrow> Inl err
         | Inr st \<Rightarrow>
             Inr \<lparr>r_schedule = schedule st, r_unscheduled = unscheduled st,
                  r_message = None,
                  r_statistics = Some (make_stats courses st),
                  r_lecturer_workload =
                    Some (map (\<lambda>(n, d). (n, hours_used d)) (lecturers st))\<rparr>))"

section \<open>Notions used in the properties\<close>

text \<open>The three tuples under which an assignment is recorded in the usage dictionaries.\<close>

definition room_key :: "session \<Rightarrow> string \<times> string \<times> string" where
  "room_key s = (s_room s, s_day s, s_time s)"

definition lecturer_key :: "session \<Rightarrow> string \<times> string \<times> string" where
  "lecturer_key s = (s_lecturer s, s_day s, s_time s)"

definition level_key :: "session \<Rightarrow> int \<times> string \<times> string" where
  "level_key s = (s_level s, s_day s, s_time s)"

text \<open>The capacity test of line 142 lets the room pass.\<close>

definition fits :: "classroom \<Rightarrow> course \<Rightarrow> bool" where
  "fits room c =
     (case enrollment_times_08 (enrollment c) of
        Inl err \<Rightarrow> False
      | Inr x \<Rightarrow> \<not> of_int (capacity room) < x)"

text \<open>The checks that line 150 has passed when it is reached.\<close>

definition assignable :: "course \<Rightarrow> string \<Rightarrow> string \<Rightarrow> classroom \<Rightarrow> ledger_entry \<Rightarrow> state \<Rightarrow> bool" where
  "assignable c day time room lec st \<longleftrightarrow>
     map_of (lecturers st) (lecturer c) = Some lec \<and>
     hours_used lec < hours_available lec \<and>
     (lecturer c, day, time) \<notin> lecturer_usage st \<and>
     (level c, day, time) \<notin> level_usage st \<and>
     room \<in> set CLASSROOMS \<and>
     (name room, day, time) \<notin> room_usage st \<and>
     fits room c"

text \<open>The usage dictionaries hold the keys of the sessions placed, each once.\<close>

definition usage_inv :: "state \<Rightarrow> bool" where
  "usage_inv st \<longleftrightarrow>
     room_usage st = room_key ` set (schedule st) \<and>
     lecturer_usage st = lecturer_key ` set (schedule st) \<and>
     level_usage st = level_key ` set (schedule st) \<and>
     distinct (map room_key (schedule st)) \<and>
     distinct (map lecturer_key (schedule st)) \<and>
     distinct (map level_key (schedule st))"

text \<open>The sessions of a lecturer in a schedule.\<close>

definition sessions_of :: "string \<Rightarrow> session list \<Rightarrow> session list" where
  "sessions_of n sched = filter (\<lambda>s. s_lecturer s = n) sched"

text \<open>
  The ledger against the table \<open>lecs0\<close> it started from: the same names and budgets, two
  hours used for each session placed, and a session is only ever added to a lecturer who
  had hours left.
\<close>

definition ledger_inv :: "(string \<times> ledger_entry) list \<Rightarrow> state \<Rightarrow> bool" where
  "ledger_inv lecs0 st \<longleftrightarrow>
     (\<forall>n. case map_of lecs0 n of
             None \<Rightarrow> map_of (lecturers st) n = None
           | Some e0 \<Rightarrow>
               (\<exists>e. map_of (lecturers st) n = Some e \<and>
                    hours_available e = hours_available e0 \<and>
                    hours_used e = 2 * int (length (sessions_of n (schedule st))) \<and>
                    (hours_used e = 0 \<or> hours_used e < hours_available e + 2)))"

section \<open>Example inputs\<close>

definition dr_a :: "int \<Rightarrow> lecturer_input" where
  "dr_a h = \<lparr>lec_name = ''Dr. A'', lec_hours_per_week = h\<rparr>"

definition cs101 :: course where
  "cs101 = \<lparr>course_code = ''CS101'', title = ''Programming'', level = 100,
            lecturer = ''Dr. A'', hours_per_week = 4, enrollment = 40\<rparr>"

definition cs999 :: course where
  "cs999 = \<lparr>course_code = ''CS999'', title = ''Spectral Methods'', level = 400,
            lecturer = ''Dr. Ghost'', hours_per_week = 3, enrollment = 25\<rparr>"

section \<open>Rounding to a double\<close>

text \<open>
  The exponent \<open>ilog2\<close> brackets its argument, and rounding never takes a value below a
  representable number that the value has reached. The capacity test of the scheduler
  therefore agrees with exact arithmetic in the direction that the schedule relies on.
\<close>

lemma bitlen_powi_bounds:
  assumes "0 < (p::int)"
  shows "2 powi (bitlen p - 1) \<le> (of_int p :: rat)" and "(of_int p :: rat) < 2 powi (bitlen p)"
proof -
  from assms have b1: "1 \<le> bitlen p"
    by (simp add: bitlen_alt_def)
  from bitlen_bounds [OF assms]
  have lo: "2 ^ nat (bitlen p - 1) \<le> p" and hi: "p < 2 ^ nat (bitlen p)"
    by simp_all
  have "(of_int ((2::int) ^ nat (bitlen p - 1)) :: rat) \<le> of_int p"
    using lo by (simp only: of_int_le_iff)
  moreover have "(2::rat) powi (bitlen p - 1) = 2 ^ nat (bitlen p - 1)"
    using b1 by (simp add: power_int_def)
  ultimately show "2 powi (bitlen p - 1) \<le> (of_int p :: rat)"
    by simp
  have "(of_int p :: rat) < of_int ((2::int) ^ nat (bitlen p))"
    using hi by (simp only: of_int_less_iff)
  moreover have "(2::rat) powi (bitlen p) = 2 ^ nat (bitlen p)"
    using b1 by (simp add: power_int_def)
  ultimately show "(of_int p :: rat) < 2 powi (bitlen p)"
    by simp
qed

lemma ilog2_lower:
  assumes "0 < x"
  shows "2 powi (ilog2 x) \<le> x"
proof -
  obtain p q where pq: "quotient_of x = (p, q)"
    by (cases "quotient_of x")
  have q: "0 < q" and x: "x = of_int p / of_int q"
    using pq by (rule quotient_of_denom_pos, rule quotient_of_div)
  from assms x q have p: "0 < p"
    by (simp add: zero_less_divide_iff)
  let ?d = "bitlen p - bitlen q"
  show ?thesis
  proof (cases "2 powi ?d \<le> x")
    case True
    then show ?thesis by (simp add: ilog2_def pq)
  next
    case False
    have "2 powi (?d - 1) = (2::rat) powi (bitlen p - 1) / 2 powi (bitlen q)"
      by (simp add: power_int_diff)
    also have "\<dots> \<le> of_int p / 2 powi (bitlen q)"
      using bitlen_powi_bounds(1) [OF p] by (simp add: divide_right_mono)
    also have "\<dots> \<le> of_int p / of_int q"
      using bitlen_powi_bounds(2) [OF q] p q by (simp add: frac_le)
    finally have "2 powi (?d - 1) \<le> x"
      using x by simp
    with False show ?thesis by (simp add: ilog2_def pq)
  qed
qed

lemma ilog2_upper:
  assumes "0 < x"
  shows "x < 2 powi (ilog2 x + 1)"
proof -
  obtain p q where pq: "quotient_of x = (p, q)"
    by (cases "quotient_of x")
  have q: "0 < q" and x: "x = of_int p / of_int q"
    using pq by (rule quotient_of_denom_pos, rule quotient_of_div)
  from assms x q have p: "0 < p"
    by (simp add: zero_less_divide_iff)
  let ?d = "bitlen p - bitlen q"
  show ?thesis
  proof (cases "2 powi ?d \<le> x")
    case False
    then show ?thesis by (simp add: ilog2_def pq)
  next
    case True
    have "of_int p / of_int q < (2::rat) powi (bitlen p) / of_int q"
      using bitlen_powi_bounds(2) [OF p] q by (simp add: divide_strict_right_mono)
    also have "\<dots> \<le> 2 powi (bitlen p) / 2 powi (bitlen q - 1)"
      using bitlen_powi_bounds(1) [OF q] q by (intro divide_left_mono) (auto intro!: mult_pos_pos)
    also have "\<dots> = 2 powi (?d + 1)"
      by (simp add: power_int_diff power_int_add)
    finally have "x < 2 powi (?d + 1)"
      using x by simp
    with True show ?thesis by (simp add: ilog2_def pq)
  qed
qed

lemma floor_le_round_half_even: "\<lfloor>x\<rfloor> \<le> round_half_even x"
  by (simp add: round_half_even_def Let_def)


lemma fl_ge_dyadic:
  assumes m: "0 < m" "m < 2 ^ 53" and le: "of_int m * 2 powi k \<le> x"
  shows "of_int m * 2 powi k \<le> fl x"
proof -
  let ?r = "of_int m * (2::rat) powi k"
  let ?e = "ilog2 x"
  let ?u = "(2::rat) powi (?e - 52)"
  let ?n = "round_half_even (x / ?u)"
  have r: "0 < ?r"
    using m by simp
  with le have x: "0 < x"
    by simp
  then have flx: "fl x = of_int ?n * ?u"
    by (simp add: fl_def Let_def)
  have u: "0 < ?u"
    by simp
  have n: "\<lfloor>x / ?u\<rfloor> \<le> ?n"
    by (rule floor_le_round_half_even)
  show ?thesis
  proof (cases "?e - 52 \<le> k")
    case True
    let ?M = "m * 2 ^ nat (k - (?e - 52))"
    have "(2::rat) powi k = 2 powi (k - (?e - 52)) * ?u"
      by (simp add: power_int_add [symmetric])
    also have "(2::rat) powi (k - (?e - 52)) = 2 ^ nat (k - (?e - 52))"
      using True by (simp add: power_int_def)
    finally have rM: "?r = of_int ?M * ?u"
      by simp
    have "of_int ?M * ?u \<le> x"
      using le rM by simp
    then have "of_int ?M \<le> x / ?u"
      using u by (simp add: pos_le_divide_eq)
    then have "?M \<le> \<lfloor>x / ?u\<rfloor>"
      by (simp only: le_floor_iff)
    with n have "?M \<le> ?n"
      by simp
    then have "(of_int ?M :: rat) \<le> of_int ?n"
      by (simp only: of_int_le_iff)
    then have "of_int ?M * ?u \<le> of_int ?n * ?u"
      using u by (simp only: mult_le_cancel_right_pos)
    then show ?thesis
      by (simp only: rM flx)
  next
    case False
    then have k: "53 + k \<le> ?e"
      by simp
    have "(2::rat) powi ?e = 2 ^ 52 * ?u"
      by (simp add: power_int_diff)
    moreover have "2 powi ?e \<le> x"
      using x by (rule ilog2_lower)
    ultimately have "2 ^ 52 * ?u \<le> x"
      by simp
    then have "of_int (2 ^ 52) \<le> x / ?u"
      using u by (simp add: pos_le_divide_eq)
    then have "(2 ^ 52 :: int) \<le> \<lfloor>x / ?u\<rfloor>"
      by (simp only: le_floor_iff)
    then have "(2 ^ 52 :: int) \<le> ?n"
      using n by (rule order_trans)
    then have "(of_int (2 ^ 52) :: rat) \<le> of_int ?n"
      by (simp only: of_int_le_iff)
    then have "of_int (2 ^ 52) * ?u \<le> of_int ?n * ?u"
      using u by (simp only: mult_le_cancel_right_pos)
    then have ge: "2 powi ?e \<le> fl x"
      using flx \<open>(2::rat) powi ?e = 2 ^ 52 * ?u\<close> by simp
    have "?r \<le> 2 ^ 53 * 2 powi k"
    proof -
      have "(of_int m :: rat) \<le> of_int (2 ^ 53)"
        using m by (simp only: of_int_le_iff)
      then show ?thesis
        by (simp add: mult_right_mono)
    qed
    also have "\<dots> = 2 powi (53 + k)"
      by (simp add: power_int_add)
    also have "\<dots> \<le> 2 powi ?e"
      using k by (simp add: power_int_increasing)
    finally show ?thesis
      using ge by simp
  qed
qed

lemma fl_four_fifths: "fl (4 / 5) = 3602879701896397 / 2 ^ 52"
  by code_simp

lemma fits_exact:
  assumes y: "enrollment_times_08 e = Inr y" and fit: "\<not> of_int c < y"
    and c: "0 \<le> c" "c < 2 ^ 50"
  shows "4 * e \<le> 5 * c"
proof (rule ccontr)
  assume "\<not> 4 * e \<le> 5 * c"
  then have e: "5 * c + 1 \<le> 4 * e"
    by simp
  with c have e1: "1 \<le> e"
    by simp
  let ?x = "fl (of_int e)"
  from y have yx: "y = fl (?x * fl (4 / 5))"
    by (auto simp: enrollment_times_08_def float_of_int_def Let_def split: if_splits)
  let ?m = "min e (2 ^ 53 - 1)"
  have "of_int ?m * 2 powi 0 \<le> fl (of_int e)"
    using e1 by (intro fl_ge_dyadic) auto
  then have x: "of_int ?m \<le> ?x"
    by simp
  have m: "(of_int c :: rat) + 1 / 8 \<le> of_int ?m * (4 / 5)"
  proof (cases "e \<le> 2 ^ 53 - 1")
    case True
    have "of_int (5 * c + 1) \<le> (of_int (4 * e) :: rat)"
      using e by (simp only: of_int_le_iff)
    then show ?thesis
      using True by (simp add: min_def)
  next
    case False
    have "of_int c \<le> (of_int (2 ^ 50) :: rat)"
      using c by (simp only: of_int_le_iff)
    then show ?thesis
      using False by (simp add: min_def)
  qed
  have "of_int ?m * (4 / 5) \<le> ?x * (4 / 5)"
    using x by simp
  also have "\<dots> \<le> ?x * fl (4 / 5)"
  proof -
    have "0 \<le> ?x"
      using x e1 by (simp add: min_def split: if_splits)
    then show ?thesis
      by (simp add: fl_four_fifths mult_left_mono)
  qed
  finally have prod: "of_int c + 1 / 8 \<le> ?x * fl (4 / 5)"
    using m by simp
  have "of_int (8 * c + 1) * 2 powi (- 3) \<le> fl (?x * fl (4 / 5))"
  proof (rule fl_ge_dyadic)
    show "0 < 8 * c + 1" using c by simp
    show "8 * c + 1 < 2 ^ 53" using c by simp
    have "of_int (8 * c + 1) * 2 powi (- 3) = (of_int c :: rat) + 1 / 8"
      by (simp add: power_int_minus field_simps)
    with prod show "of_int (8 * c + 1) * 2 powi (- 3) \<le> ?x * fl (4 / 5)"
      by simp
  qed
  moreover have "of_int (8 * c + 1) * 2 powi (- 3) = (of_int c :: rat) + 1 / 8"
    by (simp add: power_int_minus field_simps)
  ultimately have "of_int c < y"
    using yx by simp
  with fit show False
    by simp
qed

text \<open>
  The conversion of an integer raises exactly when the integer is out of the range of a
  double: it returns below \<open>2 ^ 1023\<close> in absolute value, and raises from \<open>2 ^ 1024\<close> on.
\<close>

lemma round_half_even_near: "\<bar>of_int (round_half_even z) - z\<bar> \<le> 1 / 2"
proof -
  have "of_int \<lfloor>z\<rfloor> \<le> z" "z < of_int \<lfloor>z\<rfloor> + 1"
    by linarith+
  then show ?thesis
    by (auto simp: round_half_even_def Let_def abs_le_iff)
qed

lemma ilog2_less:
  assumes "0 < x" and "x < 2 powi k"
  shows "ilog2 x < k"
proof -
  from ilog2_lower [OF assms(1)] assms(2) have less: "(2::rat) powi ilog2 x < 2 powi k"
    by simp
  show ?thesis
  proof (rule ccontr)
    assume "\<not> ilog2 x < k"
    then have "(2::rat) powi k \<le> 2 powi ilog2 x"
      by (intro power_int_increasing) simp_all
    with less show False
      by simp
  qed
qed

lemma fl_abs_le:
  assumes "x \<noteq> 0"
  shows "\<bar>fl x\<bar> \<le> 2 * \<bar>x\<bar>"
proof -
  let ?u = "(2::rat) powi (ilog2 \<bar>x\<bar> - 52)"
  let ?n = "round_half_even (x / ?u)"
  have u: "0 < ?u"
    by simp
  from assms have flx: "fl x = of_int ?n * ?u"
    by (simp add: fl_def Let_def)
  have "?u \<le> 2 powi ilog2 \<bar>x\<bar>"
    by (simp add: power_int_increasing)
  also have "\<dots> \<le> \<bar>x\<bar>"
    using assms by (intro ilog2_lower) simp
  finally have ux: "?u \<le> \<bar>x\<bar>" .
  have "\<bar>of_int ?n - x / ?u\<bar> \<le> 1 / 2"
    by (rule round_half_even_near)
  then have "\<bar>of_int ?n\<bar> \<le> \<bar>x / ?u\<bar> + 1"
    by linarith
  then have "\<bar>of_int ?n\<bar> * ?u \<le> (\<bar>x / ?u\<bar> + 1) * ?u"
    using u by (simp only: mult_le_cancel_right_pos)
  also have "\<dots> = \<bar>x\<bar> + ?u"
    using u by (simp add: field_simps abs_mult)
  finally have "\<bar>fl x\<bar> \<le> \<bar>x\<bar> + ?u"
    using u by (simp add: flx abs_mult)
  with ux show ?thesis
    by linarith
qed

lemma float_of_int_returns:
  assumes "\<bar>i\<bar> < 2 ^ 1023"
  shows "float_of_int i = Inr (fl (of_int i))"
proof (cases "fl (of_int i) = 0")
  case True
  then show ?thesis
    by (simp add: float_of_int_def)
next
  case False
  then have i: "(of_int i :: rat) \<noteq> 0"
    by (auto simp: fl_def)
  have "\<bar>of_int i :: rat\<bar> = of_int \<bar>i\<bar>"
    by simp
  also have "\<dots> < of_int (2 ^ 1023)"
    using assms by (simp only: of_int_less_iff)
  finally have "\<bar>of_int i :: rat\<bar> < 2 ^ 1023"
    by simp
  with fl_abs_le [OF i] have "\<bar>fl (of_int i)\<bar> < 2 * 2 ^ 1023"
    by linarith
  also have "2 * 2 ^ 1023 = (2::rat) powi 1024"
    by simp
  finally have "ilog2 \<bar>fl (of_int i)\<bar> < 1024"
    using False by (intro ilog2_less) simp_all
  then show ?thesis
    by (simp add: float_of_int_def Let_def)
qed

lemma enrollment_times_08_returns:
  "\<bar>e\<bar> < 2 ^ 1023 \<Longrightarrow> \<exists>y. enrollment_times_08 e = Inr y"
  by (simp add: enrollment_times_08_def float_of_int_returns)

lemma ilog2_ge:
  assumes "0 < x" and "2 powi k \<le> x"
  shows "k \<le> ilog2 x"
proof (rule ccontr)
  assume "\<not> k \<le> ilog2 x"
  then have "(2::rat) powi (ilog2 x + 1) \<le> 2 powi k"
    by (intro power_int_increasing) simp_all
  with ilog2_upper [OF assms(1)] assms(2) show False
    by simp
qed

lemma float_of_int_overflow:
  assumes "2 ^ 1024 \<le> i"
  shows "float_of_int i = Inl OverflowError"
proof -
  have "of_int (2 ^ 1024) \<le> (of_int i :: rat)"
    using assms by (simp only: of_int_le_iff)
  then have "of_int 1 * 2 powi 1024 \<le> (of_int i :: rat)"
    by simp
  then have "of_int 1 * 2 powi 1024 \<le> fl (of_int i)"
    by (intro fl_ge_dyadic) simp_all
  then have big: "2 powi 1024 \<le> fl (of_int i)"
    by simp
  then have pos: "0 < fl (of_int i)"
    by (rule less_le_trans [rotated]) simp
  with big have "1024 \<le> ilog2 (fl (of_int i))"
    by (intro ilog2_ge)
  with pos show ?thesis
    by (simp add: float_of_int_def Let_def)
qed

section \<open>The loops preserve invariants\<close>

text \<open>
  The room loop either leaves the state alone or assigns one session, and it assigns only
  after every check of the slot and of the room has passed. A property that every such
  assignment preserves, and that the two kinds of unscheduled records preserve, holds
  after every loop.
\<close>

lemma room_loop_cases:
  assumes "room_loop c day time rooms st a = Inr (st', a', found)"
  shows "(st' = st \<and> a' = a \<and> \<not> found) \<or>
         (\<exists>room lec. room \<in> set rooms \<and> map_of (lecturers st) (lecturer c) = Some lec \<and>
            (name room, day, time) \<notin> room_usage st \<and> fits room c \<and>
            st' = assign c day time room lec st \<and> a' = a + 1 \<and> found)"
  using assms
  by (induction rooms) (auto simp: fits_def split: sum.splits if_splits option.splits)

lemma set_sorted_classrooms: "set (sort_key capacity CLASSROOMS) = set CLASSROOMS"
  by simp

lemma slot_loop_inv:
  assumes "slot_loop c needed slots st a = Inr (st', a')"
    and "P st a"
    and step: "\<And>st a day time room lec.
      P st a \<Longrightarrow> a < needed \<Longrightarrow> assignable c day time room lec st \<Longrightarrow>
      P (assign c day time room lec st) (a + 1)"
  shows "P st' a'"
  using assms(1,2)
proof (induction slots arbitrary: st a)
  case Nil
  then show ?case by simp
next
  case (Cons slot slots)
  obtain day time where slot: "slot = (day, time)"
    by (cases slot)
  show ?case
  proof (cases "needed \<le> a")
    case True
    with Cons.prems slot show ?thesis by simp
  next
    case False
    then have a: "a < needed" by simp
    from Cons.prems(1) slot False obtain lec
      where lec: "map_of (lecturers st) (lecturer c) = Some lec"
      by (auto split: option.splits)
    show ?thesis
    proof (cases "hours_available lec \<le> hours_used lec \<or>
                  (lecturer c, day, time) \<in> lecturer_usage st \<or>
                  (level c, day, time) \<in> level_usage st")
      case True
      with Cons.prems(1) slot False lec have "slot_loop c needed slots st a = Inr (st', a')"
        by (auto split: if_splits)
      then show ?thesis
        using Cons.prems(2) by (rule Cons.IH)
    next
      case guards: False
      with Cons.prems(1) slot False lec obtain st1 a1 found
        where rl: "room_loop c day time (sort_key capacity CLASSROOMS) st a = Inr (st1, a1, found)"
          and rest: "slot_loop c needed slots st1 a1 = Inr (st', a')"
        by (auto split: sum.splits)
      from room_loop_cases [OF rl] have "P st1 a1"
      proof
        assume "st1 = st \<and> a1 = a \<and> \<not> found"
        with Cons.prems(2) show ?thesis by simp
      next
        assume "\<exists>room lec. room \<in> set (sort_key capacity CLASSROOMS) \<and>
            map_of (lecturers st) (lecturer c) = Some lec \<and>
            (name room, day, time) \<notin> room_usage st \<and> fits room c \<and>
            st1 = assign c day time room lec st \<and> a1 = a + 1 \<and> found"
        then obtain room where room: "room \<in> set CLASSROOMS"
            "(name room, day, time) \<notin> room_usage st" "fits room c"
            "st1 = assign c day time room lec st" "a1 = a + 1"
          using lec by (auto simp only: set_sorted_classrooms option.inject)
        with guards lec have "assignable c day time room lec st"
          by (simp add: assignable_def)
        with Cons.prems(2) a have "P (assign c day time room lec st) (a + 1)"
          by (intro step)
        with room show ?thesis by simp
      qed
      with rest show ?thesis
        by (rule Cons.IH)
    qed
  qed
qed

lemma assign_simps:
  "schedule (assign c day time room lec st) = schedule st @
     [\<lparr>s_course = course_code c, s_title = title c, s_level = level c,
       s_lecturer = lecturer c, s_room = name room, s_day = day, s_time = time,
       s_capacity = capacity room, s_enrollment = enrollment c\<rparr>]"
  "unscheduled (assign c day time room lec st) = unscheduled st"
  "room_usage (assign c day time room lec st) = insert (name room, day, time) (room_usage st)"
  "lecturer_usage (assign c day time room lec st) =
     insert (lecturer c, day, time) (lecturer_usage st)"
  "level_usage (assign c day time room lec st) = insert (level c, day, time) (level_usage st)"
  "map_of (lecturers (assign c day time room lec st)) =
     (map_of (lecturers st))(lecturer c \<mapsto> lec\<lparr>hours_used := hours_used lec + 2\<rparr>)"
  by (simp_all add: assign_def update_conv')

lemma assign_known:
  assumes "assignable c day time room lec st"
  shows "map_of (lecturers (assign c day time room lec st)) n = None \<longleftrightarrow>
         map_of (lecturers st) n = None"
  using assms by (auto simp: assign_simps assignable_def)

lemma slot_loop_known:
  assumes "slot_loop c needed slots st a = Inr (st', a')"
  shows "map_of (lecturers st') n = None \<longleftrightarrow> map_of (lecturers st) n = None"
  using assms
  by (rule slot_loop_inv [where P = "\<lambda>s a. map_of (lecturers s) n = None \<longleftrightarrow> map_of (lecturers st) n = None"])
     (simp_all add: assign_known)

lemma process_course_inv:
  assumes run: "process_course st c = Inr st'"
    and init: "P st"
    and nf: "map_of (lecturers st) (lecturer c) = None \<Longrightarrow>
      P (st\<lparr>unscheduled := unscheduled st @ [lecturer_not_found c]\<rparr>)"
    and step: "\<And>st day time room lec.
      P st \<Longrightarrow> assignable c day time room lec st \<Longrightarrow> P (assign c day time room lec st)"
    and sf: "\<And>st a. P st \<Longrightarrow> map_of (lecturers st) (lecturer c) \<noteq> None \<Longrightarrow>
      a < calculate_sessions_needed (hours_per_week c) \<Longrightarrow>
      P (st\<lparr>unscheduled := unscheduled st @
            [shortfall c a (calculate_sessions_needed (hours_per_week c))]\<rparr>)"
  shows "P st'"
proof (cases "map_of (lecturers st) (lecturer c) = None")
  case True
  with run have "st' = st\<lparr>unscheduled := unscheduled st @ [lecturer_not_found c]\<rparr>"
    by (simp add: process_course_def)
  with nf True show ?thesis by simp
next
  case False
  let ?needed = "calculate_sessions_needed (hours_per_week c)"
  from run False obtain st1 a
    where sl: "slot_loop c ?needed TIME_SLOTS st 0 = Inr (st1, a)"
      and st': "st' = (if a < ?needed
                 then st1\<lparr>unscheduled := unscheduled st1 @ [shortfall c a ?needed]\<rparr> else st1)"
    by (auto simp: process_course_def Let_def split: sum.splits)
  from sl init have P1: "P st1"
    by (rule slot_loop_inv [where P = "\<lambda>s a. P s"]) (rule step)
  from slot_loop_known [OF sl] False have "map_of (lecturers st1) (lecturer c) \<noteq> None"
    by simp
  with P1 st' show ?thesis
    by (auto intro: sf)
qed

lemma course_loop_inv:
  assumes "course_loop st cs = Inr st'"
    and "P st"
    and nf: "\<And>st c. P st \<Longrightarrow> c \<in> set cs \<Longrightarrow> map_of (lecturers st) (lecturer c) = None \<Longrightarrow>
      P (st\<lparr>unscheduled := unscheduled st @ [lecturer_not_found c]\<rparr>)"
    and step: "\<And>st c day time room lec.
      P st \<Longrightarrow> c \<in> set cs \<Longrightarrow> assignable c day time room lec st \<Longrightarrow>
      P (assign c day time room lec st)"
    and sf: "\<And>st c a. P st \<Longrightarrow> c \<in> set cs \<Longrightarrow> map_of (lecturers st) (lecturer c) \<noteq> None \<Longrightarrow>
      a < calculate_sessions_needed (hours_per_week c) \<Longrightarrow>
      P (st\<lparr>unscheduled := unscheduled st @
            [shortfall c a (calculate_sessions_needed (hours_per_week c))]\<rparr>)"
  shows "P st'"
  using assms
proof (induction cs arbitrary: st)
  case Nil
  then show ?case by simp
next
  case (Cons c cs)
  from Cons.prems(1) obtain st1
    where pc: "process_course st c = Inr st1" and rest: "course_loop st1 cs = Inr st'"
    by (auto split: sum.splits)
  from pc Cons.prems(2) have "P st1"
  proof (rule process_course_inv)
    assume "map_of (lecturers st) (lecturer c) = None"
    with Cons.prems(2)
    show "P (st\<lparr>unscheduled := unscheduled st @ [lecturer_not_found c]\<rparr>)"
      by (intro Cons.prems(3)) simp_all
  next
    fix s day time room lec
    assume "P s" "assignable c day time room lec s"
    then show "P (assign c day time room lec s)"
      by (intro Cons.prems(4) [of s c]) simp_all
  next
    fix s a
    assume "P s" "map_of (lecturers s) (lecturer c) \<noteq> None"
      "a < calculate_sessions_needed (hours_per_week c)"
    then show "P (s\<lparr>unscheduled := unscheduled s @
            [shortfall c a (calculate_sessions_needed (hours_per_week c))]\<rparr>)"
      by (intro Cons.prems(5)) simp_all
  qed
  with rest show ?case
  proof (rule Cons.IH)
    fix s c'
    assume "P s" "c' \<in> set cs" "map_of (lecturers s) (lecturer c') = None"
    then show "P (s\<lparr>unscheduled := unscheduled s @ [lecturer_not_found c']\<rparr>)"
      by (intro Cons.prems(3)) simp_all
  next
    fix s c' day time room lec
    assume "P s" "c' \<in> set cs" "assignable c' day time room lec s"
    then show "P (assign c' day time room lec s)"
      by (intro Cons.prems(4) [of s c']) simp_all
  next
    fix s c' a
    assume "P s" "c' \<in> set cs" "map_of (lecturers s) (lecturer c') \<noteq> None"
      "a < calculate_sessions_needed (hours_per_week c')"
    then show "P (s\<lparr>unscheduled := unscheduled s @
            [shortfall c' a (calculate_sessions_needed (hours_per_week c'))]\<rparr>)"
      by (intro Cons.prems(5)) simp_all
  qed
qed

lemma schedule_courses_Inr:
  assumes "schedule_courses courses lecturers_data = Inr r" and "courses \<noteq> []"
  obtains st where "course_loop (init_state lecturers_data) courses = Inr st"
    and "r = \<lparr>r_schedule = schedule st, r_unscheduled = unscheduled st, r_message = None,
              r_statistics = Some (make_stats courses st),
              r_lecturer_workload = Some (map (\<lambda>(n, d). (n, hours_used d)) (lecturers st))\<rparr>"
  using assms by (auto simp: schedule_courses_def split: sum.splits)

lemma map_of_build_lecturers:
  "map_of (build_lecturers lecs lecturers_data) n = None \<longleftrightarrow>
     map_of lecs n = None \<and> n \<notin> lec_name ` set lecturers_data"
  by (induction lecturers_data arbitrary: lecs) (auto simp: update_conv')

lemma build_lecturers_unused:
  assumes "map_of (build_lecturers lecs lecturers_data) n = Some e"
    and "\<And>e. map_of lecs n = Some e \<Longrightarrow> hours_used e = 0"
  shows "hours_used e = 0"
  using assms
proof (induction lecturers_data arbitrary: lecs)
  case Nil
  then show ?case by simp
next
  case (Cons lec lecturers_data)
  let ?lecs = "AList.update (lec_name lec)
                 \<lparr>hours_available = lec_hours_per_week lec, hours_used = 0\<rparr> lecs"
  from Cons.prems(1) have "map_of (build_lecturers ?lecs lecturers_data) n = Some e"
    by simp
  then show ?case
  proof (rule Cons.IH)
    fix e'
    assume "map_of ?lecs n = Some e'"
    then show "hours_used e' = 0"
      using Cons.prems(2) by (auto simp: update_conv' split: if_splits)
  qed
qed

section \<open>Runs return\<close>

text \<open>
  The only exception that a run on well-formed input can raise is the \<^verbatim>\<open>OverflowError\<close>
  of the capacity test: when every enrollment is in the range of a double, the function
  returns a result.
\<close>

lemma room_loop_returns:
  assumes "\<bar>enrollment c\<bar> < 2 ^ 1023" and "map_of (lecturers st) (lecturer c) \<noteq> None"
  shows "\<exists>res. room_loop c day time rooms st a = Inr res"
  using enrollment_times_08_returns [OF assms(1)] assms(2)
  by (induction rooms) auto

lemma slot_loop_returns:
  assumes "\<bar>enrollment c\<bar> < 2 ^ 1023" and "map_of (lecturers st) (lecturer c) \<noteq> None"
  shows "\<exists>res. slot_loop c needed slots st a = Inr res"
  using assms(2)
proof (induction slots arbitrary: st a)
  case Nil
  then show ?case by simp
next
  case (Cons slot slots)
  obtain day time where slot: "slot = (day, time)"
    by (cases slot)
  from Cons.prems obtain lec where lec: "map_of (lecturers st) (lecturer c) = Some lec"
    by auto
  from room_loop_returns [OF assms(1) Cons.prems]
  obtain st1 a1 found
    where rl: "room_loop c day time (sort_key capacity CLASSROOMS) st a = Inr (st1, a1, found)"
    by (metis prod_cases3)
  from room_loop_cases [OF rl] Cons.prems have "map_of (lecturers st1) (lecturer c) \<noteq> None"
    by (auto simp: assign_simps)
  then have "\<exists>res. slot_loop c needed slots st1 a1 = Inr res"
    by (rule Cons.IH)
  moreover have "\<exists>res. slot_loop c needed slots st a = Inr res"
    using Cons.prems by (rule Cons.IH)
  ultimately show ?case
    using slot lec rl by auto
qed

lemma process_course_returns:
  assumes "\<bar>enrollment c\<bar> < 2 ^ 1023"
  shows "\<exists>st'. process_course st c = Inr st'"
proof (cases "map_of (lecturers st) (lecturer c) = None")
  case True
  then show ?thesis
    by (simp add: process_course_def)
next
  case False
  from slot_loop_returns [OF assms False]
  obtain res where "slot_loop c (calculate_sessions_needed (hours_per_week c)) TIME_SLOTS st 0 = Inr res"
    by blast
  with False show ?thesis
    by (cases res) (simp add: process_course_def Let_def)
qed

lemma course_loop_returns:
  assumes "\<forall>c\<in>set cs. \<bar>enrollment c\<bar> < 2 ^ 1023"
  shows "\<exists>st'. course_loop st cs = Inr st'"
  using assms
proof (induction cs arbitrary: st)
  case Nil
  then show ?case by simp
next
  case (Cons c cs)
  then obtain st1 where "process_course st c = Inr st1"
    using process_course_returns [of c st] by auto
  moreover from Cons obtain st' where "course_loop st1 cs = Inr st'"
    by fastforce
  ultimately show ?case
    by simp
qed

lemma schedule_courses_returns:
  assumes "\<forall>c\<in>set courses. \<bar>enrollment c\<bar> < 2 ^ 1023"
  shows "\<exists>r. schedule_courses courses lecturers_data = Inr r"
proof -
  from course_loop_returns [OF assms]
  obtain st where "course_loop (init_state lecturers_data) courses = Inr st"
    by blast
  then show ?thesis
    by (simp add: schedule_courses_def)
qed

section \<open>Sessions needed\<close>

text \<open>
  C9: for every non-negative \<open>hours_per_week\<close>, \<open>calculate_sessions_needed\<close> is the ceiling
  of half of it, computed as \<open>(hours_per_week + 1) div 2\<close>; 3 gives 2, 4 gives 2 and 5
  gives 3.
\<close>

theorem sessions_needed_ceiling:
  "0 \<le> h \<Longrightarrow>
     calculate_sessions_needed h = \<lceil>real_of_int h / 2\<rceil> \<and>
     calculate_sessions_needed h = (h + 1) div 2 \<and>
     calculate_sessions_needed 3 = 2 \<and> calculate_sessions_needed 4 = 2 \<and>
     calculate_sessions_needed 5 = 3"
proof -
  let ?z = "(h + 1) div 2"
  have "h \<le> 2 * ?z" and "2 * ?z \<le> h + 1"
    by presburger+
  then have "real_of_int h \<le> real_of_int (2 * ?z)" and "real_of_int (2 * ?z) \<le> real_of_int (h + 1)"
    by (simp_all only: of_int_le_iff)
  then have "real_of_int ?z - 1 < real_of_int h / 2" and "real_of_int h / 2 \<le> real_of_int ?z"
    by simp_all
  then have "\<lceil>real_of_int h / 2\<rceil> = ?z"
    by (rule ceiling_unique)
  then show ?thesis
    by (simp add: calculate_sessions_needed_def)
qed

theorem sessions_needed_ceiling_witness:
  "(0::int) \<le> 3 \<and> calculate_sessions_needed 3 = \<lceil>real_of_int 3 / 2\<rceil> \<and>
   calculate_sessions_needed 3 = 2"
  using sessions_needed_ceiling [of 3] by simp

section \<open>The shape of the result\<close>

text \<open>
  C8: with no courses the function returns (it raises nothing) the record with an empty
  schedule, an empty list of unscheduled courses and the message
  \<open>No courses to schedule. Please add courses first.\<close>
\<close>

theorem no_courses:
  "schedule_courses [] lecturers_data =
     Inr \<lparr>r_schedule = [], r_unscheduled = [],
          r_message = Some ''No courses to schedule. Please add courses first.'',
          r_statistics = None, r_lecturer_workload = None\<rparr>"
  by (simp add: schedule_courses_def)

text \<open>
  C3, as the code has it: when the function returns, the keys \<open>statistics\<close> and
  \<open>lecturer_workload\<close> are present exactly when the course list is not empty, and the key
  \<open>message\<close> exactly when it is empty; \<open>schedule\<close> and \<open>unscheduled\<close> are always present.
\<close>

theorem result_fields:
  assumes "schedule_courses courses lecturers_data = Inr r"
  shows "(r_statistics r \<noteq> None \<longleftrightarrow> courses \<noteq> []) \<and>
         (r_lecturer_workload r \<noteq> None \<longleftrightarrow> courses \<noteq> []) \<and>
         (r_message r \<noteq> None \<longleftrightarrow> courses = [])"
  using assms by (auto simp: schedule_courses_def split: if_splits sum.splits)

theorem result_fields_witness:
  "schedule_courses [cs101] [dr_a 10] = Inr (projr (schedule_courses [cs101] [dr_a 10])) \<and>
   r_statistics (projr (schedule_courses [cs101] [dr_a 10])) \<noteq> None \<and>
   r_lecturer_workload (projr (schedule_courses [cs101] [dr_a 10])) \<noteq> None \<and>
   r_message (projr (schedule_courses [cs101] [dr_a 10])) = None"
proof -
  have "\<not> isl (schedule_courses [cs101] [dr_a 10])"
    by code_simp
  then have r: "schedule_courses [cs101] [dr_a 10] = Inr (projr (schedule_courses [cs101] [dr_a 10]))"
    by simp
  from result_fields [OF r] r show ?thesis
    by simp
qed

text \<open>For the empty course list the result has neither statistics nor a workload.\<close>

theorem result_fields_counterexample:
  "\<not> isl (schedule_courses [] []) \<and>
   r_statistics (projr (schedule_courses [] [])) = None \<and>
   r_lecturer_workload (projr (schedule_courses [] [])) = None"
  by (simp add: schedule_courses_def)

section \<open>Invariants of a run\<close>

lemma init_state_simps:
  "lecturers (init_state ls) = build_lecturers [] ls"
  "schedule (init_state ls) = []"
  "unscheduled (init_state ls) = []"
  "room_usage (init_state ls) = {}"
  "lecturer_usage (init_state ls) = {}"
  "level_usage (init_state ls) = {}"
  by (simp_all add: init_state_def)

subsection \<open>The usage dictionaries\<close>

lemma usage_inv_init: "usage_inv (init_state ls)"
  by (simp add: usage_inv_def init_state_simps)

lemma usage_inv_unscheduled: "usage_inv (st\<lparr>unscheduled := us\<rparr>) = usage_inv st"
  by (simp add: usage_inv_def)

lemma usage_inv_assign:
  assumes "usage_inv st" and "assignable c day time room lec st"
  shows "usage_inv (assign c day time room lec st)"
  using assms
  by (simp add: usage_inv_def assignable_def assign_simps room_key_def lecturer_key_def
      level_key_def)

lemma course_loop_usage_inv:
  assumes "course_loop st cs = Inr st'" and "usage_inv st"
  shows "usage_inv st'"
  using assms
  by (rule course_loop_inv) (simp_all add: usage_inv_unscheduled usage_inv_assign)

subsection \<open>Room capacity\<close>

lemma classroom_capacity_range:
  "room \<in> set CLASSROOMS \<Longrightarrow> 0 \<le> capacity room \<and> capacity room < 2 ^ 50"
  by (auto simp: CLASSROOMS_def)

lemma fits_exact_room:
  assumes "fits room c" and "room \<in> set CLASSROOMS"
  shows "4 * enrollment c \<le> 5 * capacity room"
proof -
  from assms(1) obtain y
    where y: "enrollment_times_08 (enrollment c) = Inr y" and "\<not> of_int (capacity room) < y"
    by (auto simp: fits_def split: sum.splits)
  moreover from classroom_capacity_range [OF assms(2)]
  have "0 \<le> capacity room" "capacity room < 2 ^ 50"
    by blast+
  ultimately show ?thesis
    by (rule fits_exact)
qed

lemma course_loop_capacity:
  assumes "course_loop st cs = Inr st'"
    and "\<forall>s\<in>set (schedule st). 4 * s_enrollment s \<le> 5 * s_capacity s"
  shows "\<forall>s\<in>set (schedule st'). 4 * s_enrollment s \<le> 5 * s_capacity s"
  using assms
  by (rule course_loop_inv)
     (auto simp: assign_simps assignable_def dest: fits_exact_room)

subsection \<open>The ledger of hours\<close>

lemma ledger_inv_init: "ledger_inv (build_lecturers [] ls) (init_state ls)"
  unfolding ledger_inv_def
proof
  fix n
  show "case map_of (build_lecturers [] ls) n of
          None \<Rightarrow> map_of (lecturers (init_state ls)) n = None
        | Some e0 \<Rightarrow>
            \<exists>e. map_of (lecturers (init_state ls)) n = Some e \<and>
                hours_available e = hours_available e0 \<and>
                hours_used e = 2 * int (length (sessions_of n (schedule (init_state ls)))) \<and>
                (hours_used e = 0 \<or> hours_used e < hours_available e + 2)"
  proof (cases "map_of (build_lecturers [] ls) n")
    case None
    then show ?thesis by (simp add: init_state_simps)
  next
    case (Some e0)
    then have "hours_used e0 = 0"
      by (rule build_lecturers_unused) simp
    with Some show ?thesis
      by (simp add: init_state_simps sessions_of_def)
  qed
qed

lemma ledger_inv_unscheduled: "ledger_inv lecs0 (st\<lparr>unscheduled := us\<rparr>) = ledger_inv lecs0 st"
  by (simp add: ledger_inv_def cong: option.case_cong)

lemma ledger_inv_assign:
  assumes inv: "ledger_inv lecs0 st" and a: "assignable c day time room lec st"
  shows "ledger_inv lecs0 (assign c day time room lec st)"
  unfolding ledger_inv_def
proof
  fix n
  let ?st = "assign c day time room lec st"
  from a have lec: "map_of (lecturers st) (lecturer c) = Some lec"
    and left: "hours_used lec < hours_available lec"
    by (simp_all add: assignable_def)
  from inv have n: "case map_of lecs0 n of
          None \<Rightarrow> map_of (lecturers st) n = None
        | Some e0 \<Rightarrow>
            \<exists>e. map_of (lecturers st) n = Some e \<and>
                hours_available e = hours_available e0 \<and>
                hours_used e = 2 * int (length (sessions_of n (schedule st))) \<and>
                (hours_used e = 0 \<or> hours_used e < hours_available e + 2)"
    by (simp add: ledger_inv_def)
  show "case map_of lecs0 n of
          None \<Rightarrow> map_of (lecturers ?st) n = None
        | Some e0 \<Rightarrow>
            \<exists>e. map_of (lecturers ?st) n = Some e \<and>
                hours_available e = hours_available e0 \<and>
                hours_used e = 2 * int (length (sessions_of n (schedule ?st))) \<and>
                (hours_used e = 0 \<or> hours_used e < hours_available e + 2)"
  proof (cases "n = lecturer c")
    case True
    with n lec left show ?thesis
      by (auto simp: assign_simps sessions_of_def split: option.splits)
  next
    case False
    with n show ?thesis
      by (auto simp: assign_simps sessions_of_def split: option.splits)
  qed
qed

lemma course_loop_ledger_inv:
  assumes "course_loop st cs = Inr st'" and "ledger_inv lecs0 st"
  shows "ledger_inv lecs0 st'"
  using assms
  by (rule course_loop_inv) (simp_all add: ledger_inv_unscheduled ledger_inv_assign)

section \<open>Evaluated runs\<close>

lemma run_odd_budget:
  "schedule_courses [cs101] [dr_a 3] =
     Inr \<lparr>r_schedule =
            [\<lparr>s_course = ''CS101'', s_title = ''Programming'', s_level = 100,
              s_lecturer = ''Dr. A'', s_room = ''Tutorial Room A'', s_day = ''Monday'',
              s_time = ''8 AM - 10 AM'', s_capacity = 50, s_enrollment = 40\<rparr>,
             \<lparr>s_course = ''CS101'', s_title = ''Programming'', s_level = 100,
              s_lecturer = ''Dr. A'', s_room = ''Tutorial Room A'', s_day = ''Monday'',
              s_time = ''10 AM - 12 PM'', s_capacity = 50, s_enrollment = 40\<rparr>],
          r_unscheduled = [], r_message = None,
          r_statistics =
            Some \<lparr>total_courses = 1, fully_scheduled = 1, partially_scheduled = 0,
                  n_unscheduled = 0, success_rate = 100, total_sessions = 2\<rparr>,
          r_lecturer_workload = Some [(''Dr. A'', 4)]\<rparr>"
  by code_simp

lemma run_partial:
  "schedule_courses [cs101, cs999] [dr_a 2] =
     Inr \<lparr>r_schedule =
            [\<lparr>s_course = ''CS101'', s_title = ''Programming'', s_level = 100,
              s_lecturer = ''Dr. A'', s_room = ''Tutorial Room A'', s_day = ''Monday'',
              s_time = ''8 AM - 10 AM'', s_capacity = 50, s_enrollment = 40\<rparr>],
          r_unscheduled =
            [\<lparr>u_course = cs101, sessions_assigned = Some 1, sessions_needed = Some 2,
              reason = ''Could only schedule 1/2 sessions''\<rparr>,
             \<lparr>u_course = cs999, sessions_assigned = None, sessions_needed = None,
              reason = ''Lecturer Dr. Ghost not found in system''\<rparr>],
          r_message = None,
          r_statistics =
            Some \<lparr>total_courses = 2, fully_scheduled = - 1, partially_scheduled = 1,
                  n_unscheduled = 1, success_rate = 50, total_sessions = 1\<rparr>,
          r_lecturer_workload = Some [(''Dr. A'', 2)]\<rparr>"
  by code_simp

lemma final_state_invariants:
  assumes "schedule_courses courses lecturers_data = Inr r" and "courses \<noteq> []"
  obtains st where "r_schedule r = schedule st" and "r_unscheduled r = unscheduled st"
    and "r_lecturer_workload r = Some (map (\<lambda>(n, d). (n, hours_used d)) (lecturers st))"
    and "course_loop (init_state lecturers_data) courses = Inr st"
  using assms by (auto elim!: schedule_courses_Inr)

lemma run_ghost:
  "schedule_courses [cs999] [] =
     Inr \<lparr>r_schedule = [],
          r_unscheduled =
            [\<lparr>u_course = cs999, sessions_assigned = None, sessions_needed = None,
              reason = ''Lecturer Dr. Ghost not found in system''\<rparr>],
          r_message = None,
          r_statistics =
            Some \<lparr>total_courses = 1, fully_scheduled = - 1, partially_scheduled = 0,
                  n_unscheduled = 1, success_rate = 0, total_sessions = 0\<rparr>,
          r_lecturer_workload = Some []\<rparr>"
  by code_simp

section \<open>Properties of the schedule\<close>

text \<open>
  C1, as the code has it: when the function returns, a lecturer of the lookup table with a
  budget \<open>hours_available\<close> of at least 0 has a workload of two hours for each session
  placed for that name, at most one hour above the budget, and within the budget when the
  budget is even. (The check of line 127 lets a session start while any hour is left.)
\<close>

theorem hours_used_bound:
  assumes "schedule_courses courses lecturers_data = Inr r"
    and "r_lecturer_workload r = Some w"
    and "map_of (build_lecturers [] lecturers_data) n = Some e"
    and "0 \<le> hours_available e"
  shows "\<exists>used. map_of w n = Some used \<and>
           used = 2 * int (length (sessions_of n (r_schedule r))) \<and>
           used \<le> hours_available e + 1 \<and>
           (even (hours_available e) \<longrightarrow> used \<le> hours_available e)"
proof -
  from assms(1,2) have "courses \<noteq> []"
    by (auto simp: schedule_courses_def)
  with assms(1) obtain st where st: "r_schedule r = schedule st"
    "r_lecturer_workload r = Some (map (\<lambda>(n, d). (n, hours_used d)) (lecturers st))"
    "course_loop (init_state lecturers_data) courses = Inr st"
    by (rule final_state_invariants)
  from st(3) ledger_inv_init have "ledger_inv (build_lecturers [] lecturers_data) st"
    by (rule course_loop_ledger_inv)
  with assms(3) obtain e' where e': "map_of (lecturers st) n = Some e'"
    "hours_available e' = hours_available e"
    "hours_used e' = 2 * int (length (sessions_of n (schedule st)))"
    "hours_used e' = 0 \<or> hours_used e' < hours_available e' + 2"
    unfolding ledger_inv_def by (auto dest!: spec [of _ n])
  from st(2) assms(2) have "map_of w n = map_option hours_used (map_of (lecturers st) n)"
    by (simp add: map_of_map)
  with e' have used: "map_of w n = Some (hours_used e')"
    by simp
  from e'(2,3,4) assms(4) have "hours_used e' \<le> hours_available e + 1"
    "even (hours_available e) \<longrightarrow> hours_used e' \<le> hours_available e"
    by presburger+
  with used e'(3) st(1) show ?thesis
    by simp
qed

theorem hours_used_bound_witness:
  "schedule_courses [cs101, cs999] [dr_a 2] =
     Inr (projr (schedule_courses [cs101, cs999] [dr_a 2])) \<and>
   r_lecturer_workload (projr (schedule_courses [cs101, cs999] [dr_a 2])) =
     Some [(''Dr. A'', 2)] \<and>
   map_of (build_lecturers [] [dr_a 2]) ''Dr. A'' =
     Some \<lparr>hours_available = 2, hours_used = 0\<rparr> \<and>
   (0::int) \<le> 2 \<and> even (2::int) \<and>
   2 = 2 * int (length (sessions_of ''Dr. A''
         (r_schedule (projr (schedule_courses [cs101, cs999] [dr_a 2])))))"
proof -
  let ?r = "projr (schedule_courses [cs101, cs999] [dr_a 2])"
  have r: "schedule_courses [cs101, cs999] [dr_a 2] = Inr ?r"
    by (simp add: run_partial)
  have w: "r_lecturer_workload ?r = Some [(''Dr. A'', 2)]"
    by (simp add: run_partial)
  have e: "map_of (build_lecturers [] [dr_a 2]) ''Dr. A'' =
             Some \<lparr>hours_available = 2, hours_used = 0\<rparr>"
    by (simp add: dr_a_def)
  from hours_used_bound [OF r w e] r w e show ?thesis
    by simp
qed

text \<open>
  With three hours available and a course of four hours a week, two sessions are placed
  and the workload is four hours.
\<close>

theorem hours_used_counterexample:
  "\<not> isl (schedule_courses [cs101] [dr_a 3]) \<and>
   r_lecturer_workload (projr (schedule_courses [cs101] [dr_a 3])) = Some [(''Dr. A'', 4)] \<and>
   length (sessions_of ''Dr. A'' (r_schedule (projr (schedule_courses [cs101] [dr_a 3])))) = 2 \<and>
   map_of (build_lecturers [] [dr_a 3]) ''Dr. A'' =
     Some \<lparr>hours_available = 3, hours_used = 0\<rparr> \<and>
   \<not> (4::int) \<le> 3"
proof -
  have "map_of (build_lecturers [] [dr_a 3]) ''Dr. A'' =
          Some \<lparr>hours_available = 3, hours_used = 0\<rparr>"
    by (simp add: dr_a_def)
  then show ?thesis
    by (simp add: run_odd_budget sessions_of_def)
qed

text \<open>
  C2: in the schedule returned, no two entries at different positions have the same room,
  day and time, none the same lecturer, day and time, and none the same level, day and
  time.
\<close>

theorem no_double_booking:
  assumes "schedule_courses courses lecturers_data = Inr r"
  shows "distinct (map room_key (r_schedule r)) \<and>
         distinct (map lecturer_key (r_schedule r)) \<and>
         distinct (map level_key (r_schedule r))"
proof (cases "courses = []")
  case True
  with assms show ?thesis
    by (auto simp: schedule_courses_def)
next
  case False
  with assms obtain st where st: "r_schedule r = schedule st"
    "course_loop (init_state lecturers_data) courses = Inr st"
    by (rule final_state_invariants)
  from st(2) usage_inv_init have "usage_inv st"
    by (rule course_loop_usage_inv)
  with st(1) show ?thesis
    by (simp add: usage_inv_def)
qed

theorem no_double_booking_witness:
  "schedule_courses [cs101] [dr_a 3] = Inr (projr (schedule_courses [cs101] [dr_a 3])) \<and>
   length (r_schedule (projr (schedule_courses [cs101] [dr_a 3]))) = 2 \<and>
   distinct (map room_key (r_schedule (projr (schedule_courses [cs101] [dr_a 3])))) \<and>
   distinct (map lecturer_key (r_schedule (projr (schedule_courses [cs101] [dr_a 3])))) \<and>
   distinct (map level_key (r_schedule (projr (schedule_courses [cs101] [dr_a 3]))))"
proof -
  have r: "schedule_courses [cs101] [dr_a 3] = Inr (projr (schedule_courses [cs101] [dr_a 3]))"
    by (simp add: run_odd_budget)
  from no_double_booking [OF r] r show ?thesis
    by (simp add: run_odd_budget)
qed

text \<open>
  C5: every entry of the schedule returned has a capacity of at least 0.8 times its
  enrollment, both taken as the integers recorded in the entry and compared exactly.
\<close>

theorem capacity_covers_enrollment:
  assumes "schedule_courses courses lecturers_data = Inr r" and "s \<in> set (r_schedule r)"
  shows "4 / 5 * rat_of_int (s_enrollment s) \<le> rat_of_int (s_capacity s)"
proof -
  from assms have "courses \<noteq> []"
    by (auto simp: schedule_courses_def)
  with assms(1) obtain st where st: "r_schedule r = schedule st"
    "course_loop (init_state lecturers_data) courses = Inr st"
    by (rule final_state_invariants)
  have "\<forall>s\<in>set (schedule (init_state lecturers_data)). 4 * s_enrollment s \<le> 5 * s_capacity s"
    by (simp add: init_state_simps)
  with st(2) have "\<forall>s\<in>set (schedule st). 4 * s_enrollment s \<le> 5 * s_capacity s"
    by (rule course_loop_capacity)
  with assms(2) st(1) have "4 * s_enrollment s \<le> 5 * s_capacity s"
    by simp
  then have "rat_of_int (4 * s_enrollment s) \<le> rat_of_int (5 * s_capacity s)"
    by (simp only: of_int_le_iff)
  then show ?thesis
    by simp
qed

theorem capacity_covers_enrollment_witness:
  "schedule_courses [cs101] [dr_a 3] = Inr (projr (schedule_courses [cs101] [dr_a 3])) \<and>
   hd (r_schedule (projr (schedule_courses [cs101] [dr_a 3])))
     \<in> set (r_schedule (projr (schedule_courses [cs101] [dr_a 3]))) \<and>
   s_enrollment (hd (r_schedule (projr (schedule_courses [cs101] [dr_a 3])))) = 40 \<and>
   s_capacity (hd (r_schedule (projr (schedule_courses [cs101] [dr_a 3])))) = 50 \<and>
   4 / 5 * rat_of_int 40 \<le> rat_of_int 50"
proof -
  let ?r = "projr (schedule_courses [cs101] [dr_a 3])"
  have r: "schedule_courses [cs101] [dr_a 3] = Inr ?r"
    by (simp add: run_odd_budget)
  have s: "hd (r_schedule ?r) \<in> set (r_schedule ?r)"
    by (simp add: run_odd_budget)
  from capacity_covers_enrollment [OF r s] r s show ?thesis
    by (simp add: run_odd_budget)
qed

section \<open>Statistics\<close>

text \<open>
  C10: \<open>fully_scheduled\<close> is the number of courses whose code occurs in the schedule minus
  the length of \<open>unscheduled\<close>, and it is negative for some non-empty input: one course
  with an unknown lecturer gives \<open>- 1\<close>.
\<close>

theorem fully_scheduled_negative:
  "(schedule_courses courses lecturers_data = Inr r \<longrightarrow> r_statistics r = Some stt \<longrightarrow>
      fully_scheduled stt =
        int (length (filter (\<lambda>c. course_code c \<in> set (map s_course (r_schedule r))) courses)) -
        int (length (r_unscheduled r))) \<and>
   [cs999] \<noteq> [] \<and>
   \<not> isl (schedule_courses [cs999] []) \<and>
   map_option fully_scheduled (r_statistics (projr (schedule_courses [cs999] []))) = Some (- 1)"
proof -
  have "fully_scheduled stt =
        int (length (filter (\<lambda>c. course_code c \<in> set (map s_course (r_schedule r))) courses)) -
        int (length (r_unscheduled r))"
    if "schedule_courses courses lecturers_data = Inr r" "r_statistics r = Some stt"
    using that
    by (auto simp: schedule_courses_def make_stats_def scheduled_courses_def Let_def
        split: if_splits sum.splits)
  then show ?thesis
    by (simp add: run_ghost)
qed

theorem fully_scheduled_negative_witness:
  "schedule_courses [cs999] [] = Inr (projr (schedule_courses [cs999] [])) \<and>
   r_statistics (projr (schedule_courses [cs999] [])) =
     Some (the (r_statistics (projr (schedule_courses [cs999] [])))) \<and>
   fully_scheduled (the (r_statistics (projr (schedule_courses [cs999] [])))) = 0 - 1 \<and>
   r_schedule (projr (schedule_courses [cs999] [])) = [] \<and>
   length (r_unscheduled (projr (schedule_courses [cs999] []))) = 1"
proof -
  let ?r = "projr (schedule_courses [cs999] [])"
  have r: "schedule_courses [cs999] [] = Inr ?r"
    by (simp add: run_ghost)
  have s: "r_statistics ?r = Some (the (r_statistics ?r))"
    by (simp add: run_ghost)
  have e: "r_schedule ?r = []" "length (r_unscheduled ?r) = 1"
    by (simp_all add: run_ghost)
  from fully_scheduled_negative [of "[cs999]" "[]" ?r "the (r_statistics ?r)"] r s
  have "fully_scheduled (the (r_statistics ?r)) =
          int (length (filter (\<lambda>c. course_code c \<in> set (map s_course (r_schedule ?r))) [cs999])) -
          int (length (r_unscheduled ?r))"
    by blast
  with e have "fully_scheduled (the (r_statistics ?r)) = 0 - 1"
    by simp
  with r s e show ?thesis
    by blast
qed

section \<open>Courses not fully scheduled\<close>

lemma course_loop_append:
  "course_loop st (xs @ ys) =
     (case course_loop st xs of Inl err \<Rightarrow> Inl err | Inr st' \<Rightarrow> course_loop st' ys)"
  by (induction xs arbitrary: st) (auto split: sum.splits)

lemma course_loop_known:
  assumes "course_loop st cs = Inr st'"
  shows "map_of (lecturers st') n = None \<longleftrightarrow> map_of (lecturers st) n = None"
  using assms
  by (rule course_loop_inv
      [where P = "\<lambda>s. map_of (lecturers s) n = None \<longleftrightarrow> map_of (lecturers st) n = None"])
     (simp_all add: assign_known)

lemma course_loop_grows:
  assumes "course_loop st cs = Inr st'"
  shows "(\<exists>ss. schedule st' = schedule st @ ss) \<and> (\<exists>us. unscheduled st' = unscheduled st @ us)"
  using assms
  by (rule course_loop_inv
      [where P = "\<lambda>s. (\<exists>ss. schedule s = schedule st @ ss) \<and>
                      (\<exists>us. unscheduled s = unscheduled st @ us)"])
     (auto simp: assign_simps)

lemma slot_loop_sessions:
  assumes "slot_loop c needed slots st a = Inr (st1, a1)"
  shows "\<exists>new. schedule st1 = schedule st @ new \<and> int (length new) = a1 - a \<and>
           unscheduled st1 = unscheduled st \<and>
           (\<forall>s\<in>set new. s_course s = course_code c \<and> s_lecturer s = lecturer c)"
  using assms
  by (rule slot_loop_inv
      [where P = "\<lambda>s b. \<exists>new. schedule s = schedule st @ new \<and> int (length new) = b - a \<and>
           unscheduled s = unscheduled st \<and>
           (\<forall>s\<in>set new. s_course s = course_code c \<and> s_lecturer s = lecturer c)"])
     (auto simp: assign_simps)

lemma init_state_known:
  "map_of (lecturers (init_state ls)) n = None \<longleftrightarrow> n \<notin> lec_name ` set ls"
  by (simp add: init_state_simps map_of_build_lecturers)

text \<open>
  C6: when the function returns, a course whose lecturer name is not in the lecturer list
  has its record in \<open>unscheduled\<close>, with the reason \<open>Lecturer <name> not found in system\<close>,
  and no entry of the schedule carries that lecturer name. Processing such a course, in
  any state without that name, appends the record and changes nothing else: no slot is
  tried.
\<close>

theorem unknown_lecturer:
  assumes run: "schedule_courses courses lecturers_data = Inr r"
    and c: "c \<in> set courses"
    and unknown: "lecturer c \<notin> lec_name ` set lecturers_data"
  shows "\<lparr>u_course = c, sessions_assigned = None, sessions_needed = None,
           reason = ''Lecturer '' @ lecturer c @ '' not found in system''\<rparr>
           \<in> set (r_unscheduled r) \<and>
         (\<forall>s\<in>set (r_schedule r). s_lecturer s \<noteq> lecturer c) \<and>
         (\<forall>st. map_of (lecturers st) (lecturer c) = None \<longrightarrow>
            process_course st c =
              Inr (st\<lparr>unscheduled := unscheduled st @
                [\<lparr>u_course = c, sessions_assigned = None, sessions_needed = None,
                  reason = ''Lecturer '' @ lecturer c @ '' not found in system''\<rparr>]\<rparr>))"
proof -
  from c have "courses \<noteq> []"
    by auto
  with run obtain st where st: "r_schedule r = schedule st" "r_unscheduled r = unscheduled st"
    "course_loop (init_state lecturers_data) courses = Inr st"
    by (rule final_state_invariants)
  let ?n = "lecturer c"
  let ?P = "\<lambda>s. map_of (lecturers s) ?n = None \<and> (\<forall>x\<in>set (schedule s). s_lecturer x \<noteq> ?n)"
  from unknown have init: "?P (init_state lecturers_data)"
    by (simp add: init_state_simps map_of_build_lecturers)
  have sched: "\<forall>s\<in>set (schedule st). s_lecturer s \<noteq> ?n"
  proof -
    from st(3) init have "?P st"
      by (rule course_loop_inv) (auto simp: assign_simps assignable_def)
    then show ?thesis
      by simp
  qed
  have step: "process_course s c =
                Inr (s\<lparr>unscheduled := unscheduled s @ [lecturer_not_found c]\<rparr>)"
    if "map_of (lecturers s) ?n = None" for s
    using that by (simp add: process_course_def)
  have found: "lecturer_not_found c \<in> set (unscheduled s')"
    if "course_loop s cs = Inr s'" "c \<in> set cs" "map_of (lecturers s) ?n = None" for s s' cs
    using that
  proof (induction cs arbitrary: s)
    case Nil
    then show ?case by simp
  next
    case (Cons c' cs)
    from Cons.prems(1) obtain s1
      where pc: "process_course s c' = Inr s1" and rest: "course_loop s1 cs = Inr s'"
      by (auto split: sum.splits)
    from pc have "course_loop s [c'] = Inr s1"
      by simp
    from course_loop_known [OF this] Cons.prems(3)
    have s1: "map_of (lecturers s1) ?n = None"
      by simp
    show ?case
    proof (cases "c' = c")
      case True
      with pc step [OF Cons.prems(3)] have "lecturer_not_found c \<in> set (unscheduled s1)"
        by auto
      with course_loop_grows [OF rest] show ?thesis
        by auto
    next
      case False
      with Cons.prems(2) have "c \<in> set cs"
        by simp
      with rest show ?thesis
        using s1 by (rule Cons.IH)
    qed
  qed
  from st(3) c init have "lecturer_not_found c \<in> set (unscheduled st)"
    by (intro found [of "init_state lecturers_data" courses st]) simp_all
  with sched step st(1,2) show ?thesis
    by (simp add: lecturer_not_found_def)
qed

theorem unknown_lecturer_witness:
  "schedule_courses [cs101, cs999] [dr_a 2] =
     Inr (projr (schedule_courses [cs101, cs999] [dr_a 2])) \<and>
   cs999 \<in> set [cs101, cs999] \<and>
   lecturer cs999 \<notin> lec_name ` set [dr_a 2] \<and>
   map_of (lecturers (init_state [dr_a 2])) (lecturer cs999) = None \<and>
   \<lparr>u_course = cs999, sessions_assigned = None, sessions_needed = None,
     reason = ''Lecturer Dr. Ghost not found in system''\<rparr>
     \<in> set (r_unscheduled (projr (schedule_courses [cs101, cs999] [dr_a 2]))) \<and>
   process_course (init_state [dr_a 2]) cs999 =
     Inr (init_state [dr_a 2]
       \<lparr>unscheduled :=
          [\<lparr>u_course = cs999, sessions_assigned = None, sessions_needed = None,
            reason = ''Lecturer Dr. Ghost not found in system''\<rparr>]\<rparr>)"
proof -
  let ?r = "projr (schedule_courses [cs101, cs999] [dr_a 2])"
  have r: "schedule_courses [cs101, cs999] [dr_a 2] = Inr ?r"
    by (simp add: run_partial)
  have c: "cs999 \<in> set [cs101, cs999]"
    by simp
  have u: "lecturer cs999 \<notin> lec_name ` set [dr_a 2]"
    by (simp add: cs999_def dr_a_def)
  then have m: "map_of (lecturers (init_state [dr_a 2])) (lecturer cs999) = None"
    by (simp only: init_state_known not_False_eq_True)
  have l: "lecturer cs999 = ''Dr. Ghost''"
    by (simp add: cs999_def)
  from unknown_lecturer [OF r c u] m r c u show ?thesis
    by (simp add: l init_state_simps)
qed

lemma slot_scan_partial:
  "map_sum id snd (slot_loop cs101 2 TIME_SLOTS (init_state [dr_a 2]) 0) = Inr 1"
  by code_simp

text \<open>
  C7: in a run that returns, take a course \<open>c\<close> with a known lecturer, the courses
  \<open>cs1\<close> before it and \<open>cs2\<close> after it. The slot scan for \<open>c\<close> starts in the state
  reached after \<open>cs1\<close> and ends with some number \<open>assigned\<close>; it has added that many
  sessions of \<open>c\<close>, and they are in the schedule returned. If \<open>assigned\<close> is below the
  sessions needed (0 included), the record with both counts and the reason
  \<open>Could only schedule X/Y sessions\<close> is in \<open>unscheduled\<close> as well.
\<close>

theorem partial_not_rolled_back:
  assumes run: "schedule_courses (cs1 @ c # cs2) lecturers_data = Inr r"
    and known: "lecturer c \<in> lec_name ` set lecturers_data"
  shows "\<exists>st0 st1 assigned new later_sessions later_records.
     course_loop (init_state lecturers_data) cs1 = Inr st0 \<and>
     slot_loop c (calculate_sessions_needed (hours_per_week c)) TIME_SLOTS st0 0 =
       Inr (st1, assigned) \<and>
     int (length new) = assigned \<and>
     (\<forall>s\<in>set new. s_course s = course_code c \<and> s_lecturer s = lecturer c) \<and>
     r_schedule r = schedule st0 @ new @ later_sessions \<and>
     (assigned < calculate_sessions_needed (hours_per_week c) \<longrightarrow>
        r_unscheduled r = unscheduled st0 @
          [\<lparr>u_course = c, sessions_assigned = Some assigned,
            sessions_needed = Some (calculate_sessions_needed (hours_per_week c)),
            reason = ''Could only schedule '' @ str_int assigned @ ''/'' @
                     str_int (calculate_sessions_needed (hours_per_week c)) @
                     '' sessions''\<rparr>] @ later_records)"
proof -
  let ?needed = "calculate_sessions_needed (hours_per_week c)"
  have "cs1 @ c # cs2 \<noteq> []"
    by simp
  with run obtain st where st: "r_schedule r = schedule st" "r_unscheduled r = unscheduled st"
    "course_loop (init_state lecturers_data) (cs1 @ c # cs2) = Inr st"
    by (rule final_state_invariants)
  from st(3) obtain st0 st2
    where st0: "course_loop (init_state lecturers_data) cs1 = Inr st0"
      and pc: "process_course st0 c = Inr st2"
      and rest: "course_loop st2 cs2 = Inr st"
    by (auto simp: course_loop_append split: sum.splits)
  from known course_loop_known [OF st0] have k0: "map_of (lecturers st0) (lecturer c) \<noteq> None"
    by (simp add: init_state_known)
  with pc obtain st1 a
    where sl: "slot_loop c ?needed TIME_SLOTS st0 0 = Inr (st1, a)"
      and st2: "st2 = (if a < ?needed
                 then st1\<lparr>unscheduled := unscheduled st1 @ [shortfall c a ?needed]\<rparr> else st1)"
    by (auto simp: process_course_def Let_def split: sum.splits)
  from slot_loop_sessions [OF sl] obtain new
    where new: "schedule st1 = schedule st0 @ new" "int (length new) = a"
      "unscheduled st1 = unscheduled st0"
      "\<forall>s\<in>set new. s_course s = course_code c \<and> s_lecturer s = lecturer c"
    by auto
  from course_loop_grows [OF rest] obtain ss us
    where grow: "schedule st = schedule st2 @ ss" "unscheduled st = unscheduled st2 @ us"
    by auto
  from grow(1) st2 new(1) st(1) have sched: "r_schedule r = schedule st0 @ new @ ss"
    by simp
  from grow(2) st2 new(3) st(2)
  have rec: "a < ?needed \<longrightarrow>
               r_unscheduled r = unscheduled st0 @ [shortfall c a ?needed] @ us"
    by simp
  from st0 sl new(2,4) sched rec show ?thesis
    unfolding shortfall_def by blast
qed

theorem partial_not_rolled_back_witness:
  "schedule_courses ([] @ cs101 # [cs999]) [dr_a 2] =
     Inr (projr (schedule_courses ([] @ cs101 # [cs999]) [dr_a 2])) \<and>
   lecturer cs101 \<in> lec_name ` set [dr_a 2] \<and>
   map_sum id snd (slot_loop cs101 (calculate_sessions_needed (hours_per_week cs101))
     TIME_SLOTS (init_state [dr_a 2]) 0) = Inr 1 \<and>
   1 < calculate_sessions_needed (hours_per_week cs101) \<and>
   1 \<le> length (r_schedule (projr (schedule_courses ([] @ cs101 # [cs999]) [dr_a 2]))) \<and>
   hd (r_unscheduled (projr (schedule_courses ([] @ cs101 # [cs999]) [dr_a 2]))) =
     \<lparr>u_course = cs101, sessions_assigned = Some 1, sessions_needed = Some 2,
      reason = ''Could only schedule 1/2 sessions''\<rparr>"
proof -
  let ?r = "projr (schedule_courses ([] @ cs101 # [cs999]) [dr_a 2])"
  have r: "schedule_courses ([] @ cs101 # [cs999]) [dr_a 2] = Inr ?r"
    by (simp add: run_partial)
  have k: "lecturer cs101 \<in> lec_name ` set [dr_a 2]"
    by (simp add: cs101_def dr_a_def)
  have n: "calculate_sessions_needed (hours_per_week cs101) = 2"
    by (simp add: cs101_def calculate_sessions_needed_def)
  have s: "str_int 1 = ''1''" "str_int 2 = ''2''"
    by code_simp+
  from partial_not_rolled_back [OF r k]
  obtain st0 st1 assigned new later_sessions later_records
    where st0: "course_loop (init_state [dr_a 2]) [] = Inr st0"
      and sl': "slot_loop cs101 (calculate_sessions_needed (hours_per_week cs101)) TIME_SLOTS st0 0 =
                  Inr (st1, assigned)"
      and len: "int (length new) = assigned"
      and sched': "r_schedule ?r = schedule st0 @ new @ later_sessions"
      and rec': "assigned < calculate_sessions_needed (hours_per_week cs101) \<longrightarrow>
        r_unscheduled ?r = unscheduled st0 @
          [\<lparr>u_course = cs101, sessions_assigned = Some assigned,
            sessions_needed = Some (calculate_sessions_needed (hours_per_week cs101)),
            reason = ''Could only schedule '' @ str_int assigned @ ''/'' @
                     str_int (calculate_sessions_needed (hours_per_week cs101)) @
                     '' sessions''\<rparr>] @ later_records"
    by blast
  from st0 have st0_eq: "st0 = init_state [dr_a 2]"
    by simp
  from sl' have sl: "slot_loop cs101 2 TIME_SLOTS (init_state [dr_a 2]) 0 = Inr (st1, assigned)"
    by (simp only: st0_eq n)
  from sched' have sched: "r_schedule ?r = schedule (init_state [dr_a 2]) @ new @ later_sessions"
    by (simp only: st0_eq)
  from rec' have rec: "assigned < 2 \<longrightarrow>
        r_unscheduled ?r = unscheduled (init_state [dr_a 2]) @
          [\<lparr>u_course = cs101, sessions_assigned = Some assigned, sessions_needed = Some 2,
            reason = ''Could only schedule '' @ str_int assigned @ ''/'' @ str_int 2 @
                     '' sessions''\<rparr>] @ later_records"
    by (simp only: st0_eq n)
  from sl slot_scan_partial have a: "assigned = 1"
    by simp
  from len a sched have "1 \<le> length (r_schedule ?r)"
    by simp
  moreover from rec a have "hd (r_unscheduled ?r) =
     \<lparr>u_course = cs101, sessions_assigned = Some 1, sessions_needed = Some 2,
      reason = ''Could only schedule 1/2 sessions''\<rparr>"
    by (simp add: init_state_simps s)
  ultimately show ?thesis
    using r k n slot_scan_partial by simp
qed

lemma u_course_records:
  "u_course (lecturer_not_found c) = c"
  "u_course (shortfall c a needed) = c"
  by (simp_all add: lecturer_not_found_def shortfall_def)

lemma lecturer_not_found_fields:
  "sessions_assigned (lecturer_not_found c) = None"
  "sessions_needed (lecturer_not_found c) = None"
  "reason (lecturer_not_found c) = ''Lecturer '' @ lecturer c @ '' not found in system''"
  by (simp_all add: lecturer_not_found_def)

lemma shortfall_fields:
  "sessions_assigned (shortfall c a needed) = Some a"
  "sessions_needed (shortfall c a needed) = Some needed"
  "reason (shortfall c a needed) =
     ''Could only schedule '' @ str_int a @ ''/'' @ str_int needed @ '' sessions''"
  by (simp_all add: shortfall_def)

text \<open>
  C4, as the code has it: every record of \<open>unscheduled\<close> carries the fields of one of the
  input courses and a reason. The record of a course with a known lecturer also carries
  \<open>sessions_assigned\<close> and \<open>sessions_needed\<close>, the first below the second; the record of a
  course with an unknown lecturer carries neither of the two.
\<close>

theorem unscheduled_record_fields:
  assumes run: "schedule_courses courses lecturers_data = Inr r"
    and u: "u \<in> set (r_unscheduled r)"
  shows "u_course u \<in> set courses \<and>
    (if lecturer (u_course u) \<in> lec_name ` set lecturers_data
     then \<exists>a. a < calculate_sessions_needed (hours_per_week (u_course u)) \<and>
            sessions_assigned u = Some a \<and>
            sessions_needed u = Some (calculate_sessions_needed (hours_per_week (u_course u))) \<and>
            reason u = ''Could only schedule '' @ str_int a @ ''/'' @
              str_int (calculate_sessions_needed (hours_per_week (u_course u))) @ '' sessions''
     else sessions_assigned u = None \<and> sessions_needed u = None \<and>
          reason u = ''Lecturer '' @ lecturer (u_course u) @ '' not found in system'')"
proof -
  let ?N = "lec_name ` set lecturers_data"
  let ?G = "\<lambda>u. u_course u \<in> set courses \<and>
    (if lecturer (u_course u) \<in> ?N
     then \<exists>a. a < calculate_sessions_needed (hours_per_week (u_course u)) \<and>
            u = shortfall (u_course u) a (calculate_sessions_needed (hours_per_week (u_course u)))
     else u = lecturer_not_found (u_course u))"
  let ?P = "\<lambda>s. (\<forall>n. map_of (lecturers s) n = None \<longleftrightarrow> n \<notin> ?N) \<and>
                 (\<forall>u\<in>set (unscheduled s). ?G u)"
  from run u have "courses \<noteq> []"
    by (auto simp: schedule_courses_def)
  with run obtain st where st: "r_unscheduled r = unscheduled st"
    "course_loop (init_state lecturers_data) courses = Inr st"
    by (rule final_state_invariants)
  have init: "?P (init_state lecturers_data)"
    by (simp add: init_state_simps map_of_build_lecturers)
  from st(2) init have "?P st"
  proof (rule course_loop_inv)
    fix s c
    assume "?P s" "c \<in> set courses" "map_of (lecturers s) (lecturer c) = None"
    then show "?P (s\<lparr>unscheduled := unscheduled s @ [lecturer_not_found c]\<rparr>)"
      by (simp add: u_course_records)
  next
    fix s c day time room lec
    assume "?P s" "c \<in> set courses" "assignable c day time room lec s"
    then show "?P (assign c day time room lec s)"
      by (simp add: assign_known assign_simps(2))
  next
    fix s c a
    assume "?P s" "c \<in> set courses" "map_of (lecturers s) (lecturer c) \<noteq> None"
      "a < calculate_sessions_needed (hours_per_week c)"
    then show "?P (s\<lparr>unscheduled := unscheduled s @
            [shortfall c a (calculate_sessions_needed (hours_per_week c))]\<rparr>)"
      by (auto simp: u_course_records)
  qed
  with u st(1) have G: "?G u"
    by simp
  show ?thesis
  proof (cases "lecturer (u_course u) \<in> ?N")
    case True
    let ?needed = "calculate_sessions_needed (hours_per_week (u_course u))"
    from G True obtain a where a: "a < ?needed" and eq: "u = shortfall (u_course u) a ?needed"
      by auto
    have "sessions_assigned u = Some a" "sessions_needed u = Some ?needed"
      "reason u = ''Could only schedule '' @ str_int a @ ''/'' @ str_int ?needed @ '' sessions''"
      using arg_cong [OF eq, of sessions_assigned] arg_cong [OF eq, of sessions_needed]
        arg_cong [OF eq, of reason]
      by (simp_all only: shortfall_fields)
    with G True a show ?thesis
      by auto
  next
    case False
    with G have eq: "u = lecturer_not_found (u_course u)"
      by simp
    have "sessions_assigned u = None" "sessions_needed u = None"
      "reason u = ''Lecturer '' @ lecturer (u_course u) @ '' not found in system''"
      using arg_cong [OF eq, of sessions_assigned] arg_cong [OF eq, of sessions_needed]
        arg_cong [OF eq, of reason]
      by (simp_all only: lecturer_not_found_fields)
    with G False show ?thesis
      by simp
  qed
qed

theorem unscheduled_record_fields_witness:
  "schedule_courses [cs101, cs999] [dr_a 2] =
     Inr (projr (schedule_courses [cs101, cs999] [dr_a 2])) \<and>
   hd (r_unscheduled (projr (schedule_courses [cs101, cs999] [dr_a 2])))
     \<in> set (r_unscheduled (projr (schedule_courses [cs101, cs999] [dr_a 2]))) \<and>
   u_course (hd (r_unscheduled (projr (schedule_courses [cs101, cs999] [dr_a 2]))))
     \<in> set [cs101, cs999] \<and>
   lecturer (u_course (hd (r_unscheduled (projr (schedule_courses [cs101, cs999] [dr_a 2])))))
     \<in> lec_name ` set [dr_a 2] \<and>
   sessions_assigned (hd (r_unscheduled (projr (schedule_courses [cs101, cs999] [dr_a 2])))) \<noteq> None"
proof -
  let ?r = "projr (schedule_courses [cs101, cs999] [dr_a 2])"
  have r: "schedule_courses [cs101, cs999] [dr_a 2] = Inr ?r"
    by (simp add: run_partial)
  have u: "hd (r_unscheduled ?r) \<in> set (r_unscheduled ?r)"
    by (simp add: run_partial)
  have h: "u_course (hd (r_unscheduled ?r)) = cs101"
    by (simp add: run_partial)
  have k: "lecturer (u_course (hd (r_unscheduled ?r))) \<in> lec_name ` set [dr_a 2]"
    unfolding h by (simp add: cs101_def dr_a_def)
  from unscheduled_record_fields [OF r u] k
  have "u_course (hd (r_unscheduled ?r)) \<in> set [cs101, cs999]"
    "sessions_assigned (hd (r_unscheduled ?r)) \<noteq> None"
    by auto
  with r u k show ?thesis
    by blast
qed

text \<open>The record of a course with an unknown lecturer has no session counts.\<close>

theorem unscheduled_record_fields_counterexample:
  "\<not> isl (schedule_courses [cs999] []) \<and>
   map sessions_assigned (r_unscheduled (projr (schedule_courses [cs999] []))) = [None] \<and>
   map sessions_needed (r_unscheduled (projr (schedule_courses [cs999] []))) = [None]"
  by (simp add: run_ghost)

end
